theory Spec2Isabelle
  imports Main
begin

section \<open>Auklet agent: the delivery core of \<open>auklet/base.py\<close>\<close>

text \<open>
  The development embeds class \<open>Client\<close> of \<open>auklet/base.py\<close>: the bootstrap
  (\<open>__init__\<close>, \<open>_create_file\<close>, \<open>_get_kafka_brokers\<close>, \<open>_get_kafka_certs\<close>,
  \<open>get_commit_hash\<close>) and the produce-or-spool engine (\<open>produce\<close>,
  \<open>_write_to_local\<close>, \<open>_produce_from_local\<close>).

  Everything outside the file (the broker, the HTTP endpoints, the local disk) is an
  explicit parameter: a value that says what the outside call returns or which
  exception it raises. Exceptions are values of \<open>pyerr\<close>; a call that may raise
  returns \<open>pyerr + 'a\<close>, with \<open>Inl\<close> the exception.
\<close>

subsection \<open>Values\<close>

datatype json =
    JNull
  | JBool bool
  | JNum int
  | JStr string
  | JList "json list"
  | JDict "(string \<times> json) list"

text \<open>A record is a Python \<open>dict\<close> with string keys, kept as an association list.\<close>

type_synonym jrecord = "(string \<times> json) list"

datatype errno = EEXIST | EACCES | ENOENT | ENOSPC

datatype pyerr =
    KafkaError
  | IOError
  | OSError errno
  | KeyError
  | ValueError
  | HTTPError
  | URLError
  | BadZipFile
  | RecursionError

subsection \<open>The broker client and the client object\<close>

text \<open>
  \<open>KafkaProducer.send(topic, value=data)\<close> either returns or raises \<open>KafkaError\<close>.
  Which of the two happens is the broker's business: \<open>send_raises p h t v\<close> says whether
  the send of value \<open>v\<close> on topic \<open>t\<close> raises, given the list \<open>h\<close> of all earlier send
  calls.
\<close>

record kafka_producer =
  send_raises :: "(json \<times> jrecord) list \<Rightarrow> json \<Rightarrow> jrecord \<Rightarrow> bool"

record client =
  apikey :: string
  app_id :: string
  base_url :: string
  send_enabled :: bool
  producer :: "kafka_producer option"
  brokers :: json
  producer_types :: "(string \<times> json) list"
  mac_hash :: "string option"
  commit_hash :: string
  abs_path :: string

subsection \<open>The spool file and the log of send calls\<close>

text \<open>
  The spool \<open>tmp/local.txt\<close> is written only by \<open>_write_to_local\<close>, one
  \<open>json.dumps(data)\<close> and one newline per call, so its content is a sequence of whole
  lines. It is modelled at that granularity: \<open>spool\<close> is the list of lines, oldest
  first, or \<open>None\<close> when the file does not exist, and a line is identified with the
  dict that \<open>json.loads\<close> gives back for it. A file position is a number of lines.

  \<open>attempts\<close> records every call of \<open>producer.send\<close>, oldest first, as the pair of the
  topic and the value; it is the observable behaviour towards the broker.
\<close>

record world =
  spool :: "jrecord list option"
  attempts :: "(json \<times> jrecord) list"

text \<open>
  The disk decides whether \<open>open(..., "a")\<close> with the two writes, and
  \<open>open(..., "r+")\<close> with the read, raise \<open>IOError\<close>. Opening a missing file with
  \<open>"r+"\<close> always raises. An append that raises leaves the file as it was.
\<close>

record disk_env =
  append_raises :: "jrecord list option \<Rightarrow> jrecord \<Rightarrow> bool"
  read_raises :: "jrecord list \<Rightarrow> bool"

definition spool_lines :: "world \<Rightarrow> jrecord list" where
  "spool_lines w = (case spool w of None \<Rightarrow> [] | Some ls \<Rightarrow> ls)"

subsection \<open>\<open>_write_to_local\<close>\<close>

text \<open>
  The result is Python's return value: \<open>Some False\<close> for \<open>False\<close>, \<open>None\<close> for the
  implicit \<open>None\<close> of a body that runs to its end.
\<close>

definition write_to_local :: "disk_env \<Rightarrow> jrecord \<Rightarrow> world \<Rightarrow> world \<times> bool option" where
  "write_to_local e data w =
     (if append_raises e (spool w) data then (w, Some False)
      else (w\<lparr>spool := Some (spool_lines w @ [data])\<rparr>, None))"

subsection \<open>\<open>produce\<close> and \<open>_produce_from_local\<close>\<close>

text \<open>
  \<open>offline.truncate()\<close> has no size argument, so it cuts the file at the current
  position of \<open>offline\<close>: the end of what \<open>offline.read()\<close> returned.
\<close>

definition truncate_at :: "nat \<Rightarrow> world \<Rightarrow> world" where
  "truncate_at pos w = w\<lparr>spool := map_option (take pos) (spool w)\<rparr>"

definition log_send :: "json \<Rightarrow> jrecord \<Rightarrow> world \<Rightarrow> world" where
  "log_send topic data w = w\<lparr>attempts := attempts w @ [(topic, data)]\<rparr>"

definition has_key :: "string \<Rightarrow> jrecord \<Rightarrow> bool" where
  "has_key k d = (k \<in> set (map fst d))"

text \<open>
  \<open>produce\<close> calls \<open>_produce_from_local\<close>, whose loop calls \<open>produce\<close> again. The
  first argument is the depth of calls of \<open>produce\<close> the interpreter still allows: at
  depth \<open>0\<close> the call raises \<open>RecursionError\<close>, which neither \<open>except KafkaError\<close> nor
  \<open>except IOError\<close> catches. \<open>replay_lines\<close> is the \<open>for line in lines\<close> loop.
\<close>

fun produce :: "nat \<Rightarrow> disk_env \<Rightarrow> client \<Rightarrow> jrecord \<Rightarrow> string \<Rightarrow> world \<Rightarrow> world \<times> (pyerr + unit)"
  and produce_from_local :: "nat \<Rightarrow> disk_env \<Rightarrow> client \<Rightarrow> world \<Rightarrow> world \<times> (pyerr + bool option)"
  and replay_lines :: "nat \<Rightarrow> disk_env \<Rightarrow> client \<Rightarrow> jrecord list \<Rightarrow> world \<Rightarrow> world \<times> (pyerr + unit)"
where
  "produce 0 e c data data_type w = (w, Inl RecursionError)"
| "produce (Suc n) e c data data_type w =
     (case producer c of
        None \<Rightarrow> (w, Inr ())
      | Some p \<Rightarrow>
          (case map_of (producer_types c) data_type of
             None \<Rightarrow> (w, Inl KeyError)
           | Some topic \<Rightarrow>
               if send_raises p (attempts w) topic data
               then (fst (write_to_local e data (log_send topic data w)), Inr ())
               else
                 (case produce_from_local n e c (log_send topic data w) of
                    (w', Inl err) \<Rightarrow>
                      if err = KafkaError then (fst (write_to_local e data w'), Inr ())
                      else (w', Inl err)
                  | (w', Inr _) \<Rightarrow> (w', Inr ()))))"
| "produce_from_local n e c w =
     (case spool w of
        None \<Rightarrow> (w, Inr (Some False))
      | Some lines \<Rightarrow>
          if read_raises e lines then (w, Inr (Some False))
          else
            (case replay_lines n e c lines w of
               (w', Inl err) \<Rightarrow>
                 if err = IOError then (w', Inr (Some False)) else (w', Inl err)
             | (w', Inr _) \<Rightarrow> (truncate_at (length lines) w', Inr None)))"
| "replay_lines n e c [] w = (w, Inr ())"
| "replay_lines n e c (line # rest) w =
     (case (if has_key ''stackTrace'' line
            then produce n e c line ''event'' w
            else produce n e c line ''monitoring'' w) of
        (w', Inl err) \<Rightarrow> (w', Inl err)
      | (w', Inr _) \<Rightarrow> replay_lines n e c rest w')"

text \<open>The channel that the loop of the replay chooses for a line.\<close>

definition channel_of :: "jrecord \<Rightarrow> string" where
  "channel_of line = (if has_key ''stackTrace'' line then ''event'' else ''monitoring'')"

subsection \<open>The bootstrap: \<open>__init__\<close> and what it calls\<close>

text \<open>
  The local file system as the bootstrap sees it: the directories that exist and the
  files with their bytes (a byte string is a \<open>string\<close>).
\<close>

record disk =
  dirs :: "string list"
  files :: "string \<Rightarrow> string option"

type_synonym archive = "(string \<times> string) list"

text \<open>
  The outside world of the bootstrap. The two endpoints answer a request, given by its
  URL and its \<open>Authorization\<close> header, with a parsed body or with the exception that
  \<open>urlopen\<close> (or the parsing of the body) raises; a certificate body that is no zip
  archive is \<open>Inr None\<close>. \<open>certs_redirect\<close> is the answer to \<open>urlopen(e.geturl())\<close>.
  \<open>version_file\<close> is the content of \<open>.auklet/version\<close>, \<open>None\<close> when opening or reading
  it raises \<open>IOError\<close>. \<open>kafka_connect\<close> is the constructor \<open>KafkaProducer(...)\<close>.
  \<open>makedirs_raises\<close> and \<open>open_wb_raises\<close> say when \<open>os.makedirs\<close> and
  \<open>open(filename, "wb")\<close> fail.
\<close>

record host_env =
  config_response :: "string \<Rightarrow> string \<Rightarrow> pyerr + jrecord"
  certs_response :: "string \<Rightarrow> string \<Rightarrow> pyerr + archive option"
  certs_redirect :: "pyerr + archive option"
  version_file :: "string option"
  cwd :: string
  kafka_connect :: "json \<Rightarrow> pyerr + kafka_producer"
  makedirs_raises :: "disk \<Rightarrow> string \<Rightarrow> errno option"
  open_wb_raises :: "disk \<Rightarrow> string \<Rightarrow> bool"

definition offline_fliename :: string where
  "offline_fliename = ''tmp/local.txt''"

text \<open>\<open>os.path.dirname\<close> of \<open>posixpath\<close>: the part before the last slash, without
  its trailing slashes unless it consists of slashes only.\<close>

definition dirname :: "string \<Rightarrow> string" where
  "dirname p =
     (let head = rev (dropWhile (\<lambda>ch. ch \<noteq> CHR ''/'') (rev p))
      in if head \<noteq> [] \<and> head \<noteq> replicate (length head) (CHR ''/'')
         then rev (dropWhile (\<lambda>ch. ch = CHR ''/'') (rev head))
         else head)"

text \<open>The directory \<open>p\<close> with the directories above it, which \<open>os.makedirs(p)\<close>
  creates where they are missing.\<close>

definition dir_chain :: "string \<Rightarrow> string list" where
  "dir_chain p =
     map (\<lambda>k. take k p)
       (filter (\<lambda>k. k = length p \<or> p ! k = CHR ''/'') [1 ..< Suc (length p)])"

definition path_exists :: "disk \<Rightarrow> string \<Rightarrow> bool" where
  "path_exists d p = (p \<in> set (dirs d) \<or> files d p \<noteq> None)"

definition create_file :: "host_env \<Rightarrow> string \<Rightarrow> disk \<Rightarrow> disk \<times> (pyerr + bool)" where
  "create_file env filename d =
     (if \<not> path_exists d (dirname filename) then
        (case makedirs_raises env d (dirname filename) of
           None \<Rightarrow> (d\<lparr>dirs := dir_chain (dirname filename) @ dirs d\<rparr>, Inr True)
         | Some en \<Rightarrow> if en \<noteq> EEXIST then (d, Inl (OSError en)) else (d, Inr True))
      else (d, Inr True))"

definition build_url :: "string \<Rightarrow> string \<Rightarrow> string" where
  "build_url base extension = base @ extension"

definition auth_header :: "string \<Rightarrow> string" where
  "auth_header key = ''JWT '' @ key"

definition subscript :: "jrecord \<Rightarrow> string \<Rightarrow> pyerr + json" where
  "subscript d k = (case map_of d k of None \<Rightarrow> Inl KeyError | Some v \<Rightarrow> Inr v)"

text \<open>\<open>_get_kafka_brokers\<close> gives the new values of \<open>self.brokers\<close> and
  \<open>self.producer_types\<close>.\<close>

definition get_kafka_brokers ::
  "host_env \<Rightarrow> string \<Rightarrow> string \<Rightarrow> pyerr + json \<times> (string \<times> json) list" where
  "get_kafka_brokers env base key =
     (case config_response env (build_url base ''private/devices/config/'') (auth_header key) of
        Inl err \<Rightarrow> Inl err
      | Inr kafka_info \<Rightarrow>
          (case subscript kafka_info ''brokers'' of
             Inl err \<Rightarrow> Inl err
           | Inr bs \<Rightarrow>
               (case subscript kafka_info ''prof_topic'' of
                  Inl err \<Rightarrow> Inl err
                | Inr prof \<Rightarrow>
                    (case subscript kafka_info ''event_topic'' of
                       Inl err \<Rightarrow> Inl err
                     | Inr ev \<Rightarrow>
                         (case subscript kafka_info ''log_topic'' of
                            Inl err \<Rightarrow> Inl err
                          | Inr lg \<Rightarrow>
                              Inr (bs, [(''monitoring'', prof), (''event'', ev), (''log'', lg)]))))))"

text \<open>\<open>ZipFile.open(name)\<close> looks the name up in a dict that the entries fill in
  order, so a repeated name reads the last entry of that name.\<close>

definition zip_read :: "archive \<Rightarrow> string \<Rightarrow> pyerr + string" where
  "zip_read mlz name = (case map_of (rev mlz) name of None \<Rightarrow> Inl KeyError | Some bs \<Rightarrow> Inr bs)"

definition pem_path :: "string \<Rightarrow> string" where
  "pem_path name = ''tmp/'' @ name @ ''.pem''"

text \<open>The loop \<open>for temp_file in mlz.filelist\<close>. \<open>open(filename, "wb")\<close> empties the
  file before the entry is read. The source never closes \<open>f\<close>; the bytes are taken to
  be in the file once \<open>f\<close> is dropped, as CPython does.\<close>

fun write_entries :: "host_env \<Rightarrow> archive \<Rightarrow> archive \<Rightarrow> disk \<Rightarrow> disk \<times> (pyerr + unit)" where
  "write_entries env mlz [] d = (d, Inr ())"
| "write_entries env mlz (temp_file # rest) d =
     (let filename = pem_path (fst temp_file) in
      case create_file env filename d of
        (d1, Inl err) \<Rightarrow> (d1, Inl err)
      | (d1, Inr _) \<Rightarrow>
          if open_wb_raises env d1 filename then (d1, Inl IOError)
          else
            (case zip_read mlz (fst temp_file) of
               Inl err \<Rightarrow> (d1\<lparr>files := (files d1)(filename \<mapsto> [])\<rparr>, Inl err)
             | Inr bs \<Rightarrow> write_entries env mlz rest (d1\<lparr>files := (files d1)(filename \<mapsto> bs)\<rparr>)))"

text \<open>The \<open>try\<close> statement of \<open>_get_kafka_certs\<close> with the \<open>zipfile.ZipFile(...)\<close>
  after it: only \<open>HTTPError\<close> is caught, and answered by a second \<open>urlopen\<close>.\<close>

definition fetch_certs :: "host_env \<Rightarrow> string \<Rightarrow> string \<Rightarrow> pyerr + archive" where
  "fetch_certs env base key =
     (let res = (case certs_response env (build_url base ''private/devices/certificates/'')
                        (auth_header key) of
                   Inl err \<Rightarrow> if err = HTTPError then certs_redirect env else Inl err
                 | Inr body \<Rightarrow> Inr body)
      in case res of
           Inl err \<Rightarrow> Inl err
         | Inr None \<Rightarrow> Inl BadZipFile
         | Inr (Some mlz) \<Rightarrow> Inr mlz)"

definition get_kafka_certs :: "host_env \<Rightarrow> string \<Rightarrow> string \<Rightarrow> disk \<Rightarrow> disk \<times> (pyerr + bool)" where
  "get_kafka_certs env base key d =
     (case fetch_certs env base key of
        Inl err \<Rightarrow> (d, Inl err)
      | Inr mlz \<Rightarrow>
          (case write_entries env mlz mlz d of
             (d', Inl err) \<Rightarrow> (d', Inl err)
           | (d', Inr _) \<Rightarrow> (d', Inr True)))"

text \<open>\<open>get_commit_hash\<close> returns a pair when the version file opens, and the string
  \<open>""\<close> when it does not. \<open>get_abs_path\<close> takes the part of the absolute path before
  the first \<open>.auklet\<close>; \<open>str.split\<close> always has a first component, so its handler for
  \<open>IndexError\<close> is never entered. \<open>abspath\<close> is \<open>os.path.abspath\<close> on a relative path
  that is already normal, joined to the working directory.\<close>

datatype pyval = PTuple string string | PStr string

fun before_sep :: "string \<Rightarrow> string \<Rightarrow> string" where
  "before_sep sep [] = []"
| "before_sep sep (x # xs) =
     (if take (length sep) (x # xs) = sep then [] else x # before_sep sep xs)"

definition abspath :: "string \<Rightarrow> string \<Rightarrow> string" where
  "abspath cur p = (if cur = ''/'' then ''/'' @ p else cur @ ''/'' @ p)"

definition get_abs_path :: "host_env \<Rightarrow> string \<Rightarrow> string" where
  "get_abs_path env p = before_sep ''.auklet'' (abspath (cwd env) p)"

definition get_commit_hash :: "host_env \<Rightarrow> pyval" where
  "get_commit_hash env =
     (case version_file env of
        Some content \<Rightarrow> PTuple content (get_abs_path env ''.auklet/version'')
      | None \<Rightarrow> PStr [])"

text \<open>The assignment \<open>a, b = v\<close>: a pair unpacks into its components, a string into
  its characters when it has exactly two, and anything else raises \<open>ValueError\<close>.\<close>

fun unpack2 :: "pyval \<Rightarrow> pyerr + string \<times> string" where
  "unpack2 (PTuple a b) = Inr (a, b)"
| "unpack2 (PStr [x, y]) = Inr ([x], [y])"
| "unpack2 (PStr s) = Inl ValueError"

definition new_client ::
  "string \<Rightarrow> string \<Rightarrow> string \<Rightarrow> string option \<Rightarrow> json \<Rightarrow> (string \<times> json) list \<Rightarrow>
   string \<Rightarrow> string \<Rightarrow> kafka_producer option \<Rightarrow> client" where
  "new_client key app base mac bs pt ch ap p =
     \<lparr>apikey = key, app_id = app, base_url = base, send_enabled = True, producer = p,
      brokers = bs, producer_types = pt, mac_hash = mac, commit_hash = ch, abs_path = ap\<rparr>"

text \<open>\<open>Client.__init__\<close>: the new object, or the exception that leaves the
  constructor.\<close>

definition init ::
  "host_env \<Rightarrow> string \<Rightarrow> string \<Rightarrow> string \<Rightarrow> string option \<Rightarrow> disk \<Rightarrow> disk \<times> (pyerr + client)" where
  "init env key app base mac d =
     (case get_kafka_brokers env base key of
        Inl err \<Rightarrow> (d, Inl err)
      | Inr (bs, pt) \<Rightarrow>
          (case create_file env offline_fliename d of
             (d1, Inl err) \<Rightarrow> (d1, Inl err)
           | (d1, Inr _) \<Rightarrow>
               (case unpack2 (get_commit_hash env) of
                  Inl err \<Rightarrow> (d1, Inl err)
                | Inr (ch, ap) \<Rightarrow>
                    (case get_kafka_certs env base key d1 of
                       (d2, Inl err) \<Rightarrow> (d2, Inl err)
                     | (d2, Inr certs) \<Rightarrow>
                         if certs then
                           (case kafka_connect env bs of
                              Inl err \<Rightarrow>
                                if err = KafkaError
                                then (d2, Inr (new_client key app base mac bs pt ch ap None))
                                else (d2, Inl err)
                            | Inr p \<Rightarrow> (d2, Inr (new_client key app base mac bs pt ch ap (Some p))))
                         else (d2, Inr (new_client key app base mac bs pt ch ap None))))))"

subsection \<open>Concrete clients, brokers and disks\<close>

definition example_topics :: "(string \<times> json) list" where
  "example_topics =
     [(''monitoring'', JStr ''prof''), (''event'', JStr ''events''), (''log'', JStr ''logs'')]"

definition client_with :: "kafka_producer option \<Rightarrow> client" where
  "client_with p =
     new_client ''key'' ''app'' ''https://api.auklet.io/'' None (JList [JStr ''broker:9093''])
       example_topics ''c0ffee'' ''/srv/app/'' p"

text \<open>A broker that accepts every send, one that accepts only the first send it sees,
  and one that refuses every send.\<close>

definition broker_up :: kafka_producer where
  "broker_up = \<lparr>send_raises = (\<lambda>h t v. False)\<rparr>"

definition broker_first_only :: kafka_producer where
  "broker_first_only = \<lparr>send_raises = (\<lambda>h t v. h \<noteq> [])\<rparr>"

definition broker_down :: kafka_producer where
  "broker_down = \<lparr>send_raises = (\<lambda>h t v. True)\<rparr>"

definition disk_ok :: disk_env where
  "disk_ok = \<lparr>append_raises = (\<lambda>s d. False), read_raises = (\<lambda>ls. False)\<rparr>"

definition disk_full :: disk_env where
  "disk_full = \<lparr>append_raises = (\<lambda>s d. True), read_raises = (\<lambda>ls. False)\<rparr>"

definition metric_a :: jrecord where
  "metric_a = [(''id'', JStr ''a''), (''cpu'', JNum 1)]"

definition event_b :: jrecord where
  "event_b = [(''id'', JStr ''b''), (''stackTrace'', JList [JStr ''main''])]"

definition metric_c :: jrecord where
  "metric_c = [(''id'', JStr ''c''), (''cpu'', JNum 2)]"

subsection \<open>Concrete hosts\<close>

definition example_config :: jrecord where
  "example_config =
     [(''brokers'', JList [JStr ''broker:9093'']), (''prof_topic'', JStr ''prof''),
      (''event_topic'', JStr ''events''), (''log_topic'', JStr ''logs'')]"

definition example_archive :: archive where
  "example_archive = [(''ck_ca'', ''CA''), (''ck_cert'', ''CERT''), (''ck_private_key'', ''KEY'')]"

text \<open>A host where every step of the bootstrap succeeds, and hosts that differ from it
  in one step: the config endpoint is unreachable, the certificate endpoint is
  unreachable, the broker is unreachable, the version file is missing.\<close>

definition host_ok :: host_env where
  "host_ok =
     \<lparr>config_response = (\<lambda>url auth. Inr example_config),
      certs_response = (\<lambda>url auth. Inr (Some example_archive)),
      certs_redirect = Inl URLError,
      version_file = Some ''c0ffee'',
      cwd = ''/srv/app'',
      kafka_connect = (\<lambda>bs. Inr broker_up),
      makedirs_raises = (\<lambda>d p. None),
      open_wb_raises = (\<lambda>d p. False)\<rparr>"

definition host_config_down :: host_env where
  "host_config_down = host_ok\<lparr>config_response := (\<lambda>url auth. Inl URLError)\<rparr>"

definition host_certs_down :: host_env where
  "host_certs_down = host_ok\<lparr>certs_response := (\<lambda>url auth. Inl URLError)\<rparr>"

definition host_broker_down :: host_env where
  "host_broker_down = host_ok\<lparr>kafka_connect := (\<lambda>bs. Inl KafkaError)\<rparr>"

definition host_no_version :: host_env where
  "host_no_version = host_ok\<lparr>version_file := None\<rparr>"

definition empty_disk :: disk where
  "empty_disk = \<lparr>dirs = [], files = (\<lambda>p. None)\<rparr>"

subsection \<open>Auxiliary notions for the proofs\<close>

text \<open>\<open>extends w w'\<close>: the spool of \<open>w'\<close> is the spool of \<open>w\<close> with lines added at the
  end, and a spool file that existed still exists.\<close>

definition extends :: "world \<Rightarrow> world \<Rightarrow> bool" where
  "extends w w' =
     ((\<exists>X. spool_lines w' = spool_lines w @ X) \<and> (spool w \<noteq> None \<longrightarrow> spool w' \<noteq> None))"

text \<open>\<open>chainset L S\<close>: \<open>S\<close> is the set of the elements of a prefix of \<open>L\<close>.
  \<open>ordered_by L xs\<close>: at every moment of the sequence \<open>xs\<close>, the elements seen so far
  are those of a prefix of \<open>L\<close>; so an element of \<open>L\<close> first occurs in \<open>xs\<close> only after
  all elements before it in \<open>L\<close> have occurred.\<close>

definition chainset :: "'a list \<Rightarrow> 'a set \<Rightarrow> bool" where
  "chainset L S = (\<exists>k\<le>length L. S = set (take k L))"

definition ordered_by :: "'a list \<Rightarrow> 'a list \<Rightarrow> bool" where
  "ordered_by L xs = (\<forall>q\<le>length xs. chainset L (set (take q xs)))"

text \<open>A send call is routed when its topic is the one bound to the channel that the
  shape of its record selects.\<close>

definition routed :: "client \<Rightarrow> json \<times> jrecord \<Rightarrow> bool" where
  "routed c a = (map_of (producer_types c) (channel_of (snd a)) = Some (fst a))"

section \<open>Properties of the delivery core\<close>

lemmas example_defs = example_topics_def client_with_def new_client_def broker_up_def
  broker_first_only_def broker_down_def disk_ok_def disk_full_def metric_a_def event_b_def
  metric_c_def

declare produce_from_local.simps [simp del]

lemmas step_defs = produce_from_local.simps replay_lines.simps(2) write_to_local_def
  log_send_def has_key_def truncate_at_def spool_lines_def

subsection \<open>The loop body\<close>

lemma replay_lines_Cons:
  "replay_lines n e c (line # rest) w =
     (case produce n e c line (channel_of line) w of
        (w', Inl err) \<Rightarrow> (w', Inl err)
      | (w', Inr u) \<Rightarrow> replay_lines n e c rest w')"
  by (simp add: channel_of_def)

declare replay_lines.simps(2) [simp del]

subsection \<open>Exceptions that never leave \<open>produce\<close>\<close>

text \<open>Neither \<open>KafkaError\<close> nor \<open>IOError\<close> leaves any of the three functions, so the
  two handlers that wrap the replay never fire on an exception of the replay itself.\<close>

lemma no_caught_errors:
  "snd (produce n e c d t w) \<noteq> Inl KafkaError \<and> snd (produce n e c d t w) \<noteq> Inl IOError"
  "snd (produce_from_local n e c w) \<noteq> Inl KafkaError \<and>
   snd (produce_from_local n e c w) \<noteq> Inl IOError"
  "snd (replay_lines n e c ls w) \<noteq> Inl KafkaError \<and> snd (replay_lines n e c ls w) \<noteq> Inl IOError"
  by (induction n e c d t w and n e c w and n e c ls w
      rule: produce_produce_from_local_replay_lines.induct)
     (auto simp: produce_from_local.simps replay_lines.simps(2)
           split: option.splits prod.splits sum.splits if_splits)

lemma produce_up_succ:
  assumes "producer c = Some p" and "map_of (producer_types c) t = Some topic"
    and "\<not> send_raises p (attempts w) topic d"
  shows "produce (Suc n) e c d t w =
           (fst (produce_from_local n e c (log_send topic d w)),
            map_sum id (\<lambda>r. ()) (snd (produce_from_local n e c (log_send topic d w))))"
proof -
  have "snd (produce_from_local n e c (log_send topic d w)) \<noteq> Inl KafkaError"
    using no_caught_errors(2) by simp
  with assms show ?thesis
    by (auto split: prod.splits sum.splits)
qed

subsection \<open>The channel-down state\<close>

text \<open>
  Claim C3. If the client has no broker connection (\<open>self.producer is None\<close>), a call
  \<open>produce(record, channel)\<close> returns without raising, sends nothing and writes
  nothing: the world after the call, spool and send log, is the world before it. This
  holds for every record, every channel name, every disk and every positive call depth.
\<close>

theorem produce_channel_down_noop:
  "producer c = None \<Longrightarrow> produce (Suc n) e c data data_type w = (w, Inr ())"
  by simp

theorem produce_channel_down_noop_witness:
  "producer (client_with None) = None \<and>
   produce (Suc 0) disk_ok (client_with None) event_b ''event''
     \<lparr>spool = Some [metric_a], attempts = []\<rparr> =
   (\<lparr>spool = Some [metric_a], attempts = []\<rparr>, Inr ())"
proof -
  have h: "producer (client_with None) = None"
    by (simp add: client_with_def new_client_def)
  show ?thesis
    using h produce_channel_down_noop [OF h, of 0 disk_ok event_b "''event''"
        "\<lparr>spool = Some [metric_a], attempts = []\<rparr>"]
    by simp
qed

subsection \<open>The spool append\<close>



subsection \<open>What a replay pass leaves in the spool\<close>

text \<open>
  Claim C1 says that the spool is empty after a replay pass that a successful live send
  triggered. The code does not do that. The spool holds the one record \<open>metric_a\<close>;
  the live send of \<open>metric_c\<close> succeeds and starts the replay; the replayed send of
  \<open>metric_a\<close> raises \<open>KafkaError\<close>, so the nested \<open>produce\<close> appends \<open>metric_a\<close> again;
  the loop ends and \<open>offline.truncate()\<close> cuts the file at the position where
  \<open>offline.read()\<close> stopped. The call returns normally and the spool still holds
  \<open>metric_a\<close>.
\<close>

theorem replay_pass_keeps_spooled_record:
  "produce (Suc (Suc n)) disk_ok (client_with (Some broker_first_only)) metric_c ''monitoring''
      \<lparr>spool = Some [metric_a], attempts = []\<rparr>
   = (\<lparr>spool = Some [metric_a],
       attempts = [(JStr ''prof'', metric_c), (JStr ''prof'', metric_a)]\<rparr>, Inr ())"
  by (simp add: example_defs step_defs)

subsection \<open>The recursion of the replay\<close>

lemma replay_of_one_line_unbounded:
  "produce n disk_ok (client_with (Some broker_up)) metric_a ''monitoring''
      \<lparr>spool = Some [metric_a], attempts = h\<rparr>
   = (\<lparr>spool = Some [metric_a], attempts = h @ replicate n (JStr ''prof'', metric_a)\<rparr>,
      Inl RecursionError)"
proof (induction n arbitrary: h)
  case 0
  show ?case by simp
next
  case (Suc n)
  have key: "\<not> has_key ''stackTrace'' metric_a"
    by (simp add: has_key_def metric_a_def)
  have up: "producer (client_with (Some broker_up)) = Some broker_up"
    "map_of (producer_types (client_with (Some broker_up))) ''monitoring'' = Some (JStr ''prof'')"
    "\<And>h t v. \<not> send_raises broker_up h t v"
    "\<And>ls. \<not> read_raises disk_ok ls"
    by (simp_all add: example_defs)
  show ?case
    using Suc.IH [of "h @ [(JStr ''prof'', metric_a)]"] key up
    by (simp add: produce_from_local.simps replay_lines.simps(2) log_send_def
          replicate_app_Cons_same)
qed

text \<open>
  Claim C2 says that a call of \<open>produce\<close> runs one sweep over the spool and ends, also
  when every replayed send succeeds and the spool is not empty. The code does not do
  that. With the one record \<open>metric_a\<close> in the spool and a broker that accepts every
  send, the live send of \<open>event_b\<close> starts a replay, the replayed send of \<open>metric_a\<close>
  starts a replay of the same, still untruncated, file, and so on: whatever call depth
  \<open>Suc n\<close> the interpreter allows, the call sends \<open>metric_a\<close> \<open>n\<close> times and ends in
  \<open>RecursionError\<close>, with no sweep ever finished and the spool as it was.
\<close>

theorem produce_replay_recursion_unbounded:
  "produce (Suc n) disk_ok (client_with (Some broker_up)) event_b ''event''
      \<lparr>spool = Some [metric_a], attempts = []\<rparr>
   = (\<lparr>spool = Some [metric_a],
       attempts = (JStr ''events'', event_b) # replicate n (JStr ''prof'', metric_a)\<rparr>,
      Inl RecursionError)"
proof -
  have key: "\<not> has_key ''stackTrace'' metric_a"
    by (simp add: has_key_def metric_a_def)
  have up: "producer (client_with (Some broker_up)) = Some broker_up"
    "map_of (producer_types (client_with (Some broker_up))) ''event'' = Some (JStr ''events'')"
    "\<And>h t v. \<not> send_raises broker_up h t v"
    "\<And>ls. \<not> read_raises disk_ok ls"
    by (simp_all add: example_defs)
  show ?thesis
    using replay_of_one_line_unbounded [of n "[(JStr ''events'', event_b)]"] key up
    by (simp add: produce_from_local.simps replay_lines.simps(2) log_send_def)
qed

subsection \<open>The spool only grows, and a replay pass that returns leaves it as it was\<close>

lemma extends_refl: "extends w w"
  by (simp add: extends_def)

lemma extends_trans: "extends a b \<Longrightarrow> extends b c \<Longrightarrow> extends a c"
  by (auto simp: extends_def)

lemma extends_log_send: "extends w (log_send t d w)"
  by (simp add: extends_def log_send_def spool_lines_def)

lemma extends_write: "extends w (fst (write_to_local e d w))"
  by (simp add: extends_def write_to_local_def spool_lines_def)

lemma extends_truncate:
  "spool w = Some L \<Longrightarrow> extends w w' \<Longrightarrow> spool (truncate_at (length L) w') = Some L"
  by (auto simp: extends_def truncate_at_def spool_lines_def split: option.splits)

lemma spool_frame:
  "extends w (fst (produce n e c d t w))"
  "extends w (fst (produce_from_local n e c w)) \<and>
     (\<forall>r. snd (produce_from_local n e c w) = Inr r \<longrightarrow>
          spool (fst (produce_from_local n e c w)) = spool w)"
  "extends w (fst (replay_lines n e c ls w))"
proof (induction n e c d t w and n e c w and n e c ls w
       rule: produce_produce_from_local_replay_lines.induct)
  case (1 e c data data_type w)
  show ?case by (simp add: extends_refl)
next
  case (2 n e c data data_type w)
  show ?case
  proof (cases "producer c")
    case None
    then show ?thesis by (simp add: extends_refl)
  next
    case (Some p)
    note up = this
    show ?thesis
    proof (cases "map_of (producer_types c) data_type")
      case None
      with up show ?thesis by (simp add: extends_refl)
    next
      case (Some topic)
      note tp = this
      show ?thesis
      proof (cases "send_raises p (attempts w) topic data")
        case True
        with up tp show ?thesis
          using extends_trans [OF extends_log_send extends_write] by simp
      next
        case False
        from "2.IH" [OF up tp False]
        have "extends (log_send topic data w)
                (fst (produce_from_local n e c (log_send topic data w)))"
          by simp
        then have "extends w (fst (produce_from_local n e c (log_send topic data w)))"
          using extends_trans [OF extends_log_send] by blast
        then show ?thesis
          by (simp only: produce_up_succ [OF up tp False] fst_conv)
      qed
    qed
  qed
next
  case (3 n e c w)
  show ?case
  proof (cases "spool w")
    case None
    then show ?thesis by (simp add: produce_from_local.simps extends_refl)
  next
    case (Some L)
    show ?thesis
    proof (cases "read_raises e L")
      case True
      with Some show ?thesis by (simp add: produce_from_local.simps extends_refl)
    next
      case False
      from "3.IH" [OF Some False] have g: "extends w (fst (replay_lines n e c L w))" .
      from no_caught_errors(3) [of n e c L w]
      have ni: "snd (replay_lines n e c L w) \<noteq> Inl IOError" by simp
      have t: "spool (truncate_at (length L) (fst (replay_lines n e c L w))) = Some L"
        using extends_truncate [OF Some g] .
      have gt: "extends w (truncate_at (length L) (fst (replay_lines n e c L w)))"
        using t Some by (simp add: extends_def spool_lines_def)
      show ?thesis using Some False g ni t gt
        by (auto simp: produce_from_local.simps split: prod.splits sum.splits)
    qed
  qed
next
  case (4 n e c w)
  show ?case by (simp add: extends_refl)
next
  case (5 n e c line rest w)
  have g1: "extends w (fst (produce n e c line (channel_of line) w))"
    using "5.IH"(1,2) by (simp add: channel_of_def)
  show ?case
  proof (cases "produce n e c line (channel_of line) w")
    case (Pair w' r)
    show ?thesis
    proof (cases r)
      case (Inl err)
      with Pair g1 show ?thesis by (simp add: replay_lines_Cons)
    next
      case (Inr u)
      have "(w', r) = (if has_key ''stackTrace'' line then produce n e c line ''event'' w
                       else produce n e c line ''monitoring'' w)"
        using Pair by (auto simp: channel_of_def split: if_splits)
      from "5.IH"(3) [OF this Inr]
      have "extends w' (fst (replay_lines n e c rest w'))" .
      with g1 Pair have "extends w (fst (replay_lines n e c rest w'))"
        by (auto intro: extends_trans)
      with Pair Inr show ?thesis by (simp add: replay_lines_Cons)
    qed
  qed
qed

lemma replay_pass_returns_spool_unchanged:
  "snd (produce_from_local n e c w) = Inr r \<Longrightarrow> spool (fst (produce_from_local n e c w)) = spool w"
  using spool_frame(2) by blast

subsection \<open>The dispatch of \<open>produce\<close> in the channel-up state\<close>

text \<open>
  Claim C7. Let the client have a broker connection and let the channel name be bound to
  a topic. If the send raises \<open>KafkaError\<close>, the call is exactly the spool append of
  this record after the one send: \<open>_write_to_local(data)\<close> runs, the send log gains the
  one entry of this record, so no replay took place, and when the disk takes the append
  the spool gains exactly this record as its last line. If the send succeeds, the call
  is exactly the replay pass \<open>_produce_from_local()\<close> after the send, with no spool
  append for this record; when the call then returns normally the spool is what it was
  before the call.
\<close>

theorem produce_channel_up_dispatch:
  assumes "producer c = Some p" and "map_of (producer_types c) data_type = Some topic"
  shows
    "(send_raises p (attempts w) topic data \<longrightarrow>
        produce (Suc n) e c data data_type w =
          (fst (write_to_local e data (log_send topic data w)), Inr ()) \<and>
        attempts (fst (produce (Suc n) e c data data_type w)) = attempts w @ [(topic, data)] \<and>
        (\<not> append_raises e (spool w) data \<longrightarrow>
           spool (fst (produce (Suc n) e c data data_type w)) = Some (spool_lines w @ [data]))) \<and>
     (\<not> send_raises p (attempts w) topic data \<longrightarrow>
        produce (Suc n) e c data data_type w =
          (fst (produce_from_local n e c (log_send topic data w)),
           map_sum id (\<lambda>r. ()) (snd (produce_from_local n e c (log_send topic data w)))) \<and>
        (snd (produce (Suc n) e c data data_type w) = Inr () \<longrightarrow>
           spool (fst (produce (Suc n) e c data data_type w)) = spool w))"
proof (cases "send_raises p (attempts w) topic data")
  case True
  with assms show ?thesis
    by (simp add: write_to_local_def log_send_def spool_lines_def)
next
  case False
  let ?w1 = "log_send topic data w"
  have eq: "produce (Suc n) e c data data_type w =
          (fst (produce_from_local n e c ?w1),
           map_sum id (\<lambda>r. ()) (snd (produce_from_local n e c ?w1)))"
    using produce_up_succ [OF assms False] .
  have "spool (fst (produce_from_local n e c ?w1)) = spool w"
    if "snd (produce (Suc n) e c data data_type w) = Inr ()"
  proof -
    from that eq obtain r where "snd (produce_from_local n e c ?w1) = Inr r"
      by (cases "snd (produce_from_local n e c ?w1)") auto
    from replay_pass_returns_spool_unchanged [OF this]
    show ?thesis by (simp add: log_send_def)
  qed
  with False eq show ?thesis by simp
qed

theorem produce_channel_up_dispatch_witness:
  "producer (client_with (Some broker_first_only)) = Some broker_first_only \<and>
   map_of (producer_types (client_with (Some broker_first_only))) ''event'' = Some (JStr ''events'') \<and>
   send_raises broker_first_only [(JStr ''prof'', metric_c)] (JStr ''events'') event_b \<and>
   \<not> append_raises disk_ok (Some [metric_a]) event_b \<and>
   produce (Suc 0) disk_ok (client_with (Some broker_first_only)) event_b ''event''
      \<lparr>spool = Some [metric_a], attempts = [(JStr ''prof'', metric_c)]\<rparr> =
     (\<lparr>spool = Some [metric_a, event_b],
       attempts = [(JStr ''prof'', metric_c), (JStr ''events'', event_b)]\<rparr>, Inr ()) \<and>
   \<not> send_raises broker_first_only [] (JStr ''events'') event_b \<and>
   produce (Suc (Suc 0)) disk_ok (client_with (Some broker_first_only)) event_b ''event''
      \<lparr>spool = Some [metric_a], attempts = []\<rparr> =
     (\<lparr>spool = Some [metric_a],
       attempts = [(JStr ''events'', event_b), (JStr ''prof'', metric_a)]\<rparr>, Inr ())"
proof -
  have h1: "producer (client_with (Some broker_first_only)) = Some broker_first_only"
    by (simp add: client_with_def new_client_def)
  have h2: "map_of (producer_types (client_with (Some broker_first_only))) ''event'' =
              Some (JStr ''events'')"
    by (simp add: client_with_def new_client_def example_topics_def)
  have k: "\<not> has_key ''stackTrace'' metric_a"
    by (simp add: has_key_def metric_a_def)
  show ?thesis
    using h1 h2 k
      produce_channel_up_dispatch [OF h1 h2,
        of "\<lparr>spool = Some [metric_a], attempts = [(JStr ''prof'', metric_c)]\<rparr>" event_b 0 disk_ok]
      produce_channel_up_dispatch [OF h1 h2,
        of "\<lparr>spool = Some [metric_a], attempts = []\<rparr>" event_b "Suc 0" disk_ok]
    by (simp add: broker_first_only_def disk_ok_def step_defs example_topics_def
          client_with_def new_client_def)
qed

section \<open>The replay pass: order and routing\<close>

subsection \<open>Prefix sets of a list\<close>

lemma set_take_mono: "i \<le> j \<Longrightarrow> set (take i L) \<subseteq> set (take j L)"
  by (metis set_take_subset_set_take)

lemma chainset_empty: "chainset L {}"
  unfolding chainset_def by (intro exI [of _ 0]) simp

lemma chainset_union:
  assumes "chainset L A" and "chainset L B"
  shows "chainset L (A \<union> B)"
proof -
  from assms obtain i j where i: "i \<le> length L" "A = set (take i L)"
    and j: "j \<le> length L" "B = set (take j L)"
    unfolding chainset_def by blast
  show ?thesis
  proof (cases "i \<le> j")
    case True
    then have "A \<union> B = set (take j L)"
      using i j set_take_mono [of i j L] by auto
    with j show ?thesis unfolding chainset_def by blast
  next
    case False
    then have "A \<union> B = set (take i L)"
      using i j set_take_mono [of j i L] by auto
    with i show ?thesis unfolding chainset_def by blast
  qed
qed

lemma chainset_shrink:
  assumes "set X \<subseteq> set L" and "chainset (L @ X) S"
  shows "chainset L S"
proof -
  from assms(2) obtain k where k: "k \<le> length (L @ X)" "S = set (take k (L @ X))"
    unfolding chainset_def by blast
  show ?thesis
  proof (cases "k \<le> length L")
    case True
    with k show ?thesis unfolding chainset_def by auto
  next
    case False
    then have "S = set L \<union> set (take (k - length L) X)"
      using k by simp
    moreover have "set (take (k - length L) X) \<subseteq> set L"
      using assms(1) set_take_subset [of "k - length L" X] by blast
    ultimately have "S = set (take (length L) L)" by auto
    then show ?thesis unfolding chainset_def by blast
  qed
qed

lemma chainset_insert_next:
  assumes "chainset L S" and "i < length L" and "set (take i L) \<subseteq> S"
  shows "chainset L (insert (L ! i) S)"
proof -
  have "chainset L (set (take (Suc i) L))"
    using assms(2) unfolding chainset_def by (intro exI [of _ "Suc i"]) simp
  from chainset_union [OF assms(1) this]
  have "chainset L (S \<union> set (take (Suc i) L))" .
  moreover have "S \<union> set (take (Suc i) L) = insert (L ! i) S"
    using assms(2,3) by (auto simp: take_Suc_conv_app_nth)
  ultimately show ?thesis by simp
qed

lemma ordered_by_Nil: "ordered_by L []"
  by (simp add: ordered_by_def chainset_empty)

lemma ordered_by_set: "ordered_by L xs \<Longrightarrow> chainset L (set xs)"
  unfolding ordered_by_def by (drule spec [of _ "length xs"]) simp

lemma ordered_by_append:
  assumes "ordered_by L xs" and "ordered_by L ys"
  shows "ordered_by L (xs @ ys)"
  unfolding ordered_by_def
proof (intro allI impI)
  fix q assume "q \<le> length (xs @ ys)"
  show "chainset L (set (take q (xs @ ys)))"
  proof (cases "q \<le> length xs")
    case True
    with assms(1) show ?thesis by (simp add: ordered_by_def)
  next
    case False
    with \<open>q \<le> length (xs @ ys)\<close> have "q - length xs \<le> length ys" by simp
    with assms(2) have "chainset L (set (take (q - length xs) ys))"
      by (simp add: ordered_by_def)
    from chainset_union [OF ordered_by_set [OF assms(1)] this] False
    show ?thesis by simp
  qed
qed

lemma ordered_by_snoc:
  assumes "ordered_by L xs" and "i < length L" and "set (take i L) \<subseteq> set xs"
  shows "ordered_by L (xs @ [L ! i])"
  unfolding ordered_by_def
proof (intro allI impI)
  fix q assume q: "q \<le> length (xs @ [L ! i])"
  show "chainset L (set (take q (xs @ [L ! i])))"
  proof (cases "q \<le> length xs")
    case True
    with assms(1) show ?thesis by (simp add: ordered_by_def)
  next
    case False
    with q have "take q (xs @ [L ! i]) = xs @ [L ! i]" by simp
    with chainset_insert_next [OF ordered_by_set [OF assms(1)] assms(2,3)]
    show ?thesis by simp
  qed
qed

lemma ordered_by_shrink:
  "set X \<subseteq> set L \<Longrightarrow> ordered_by (L @ X) xs \<Longrightarrow> ordered_by L xs"
  unfolding ordered_by_def by (blast intro: chainset_shrink)

subsection \<open>The sends of a replay pass follow the order of the spool\<close>

lemma attempts_truncate_at: "attempts (truncate_at k w) = attempts w"
  by (simp add: truncate_at_def)

lemma spool_truncate_at: "spool w = Some (F @ X) \<Longrightarrow> spool (truncate_at (length F) w) = Some F"
  by (simp add: truncate_at_def)

lemma replay_order_invariant:
  "producer c \<noteq> None \<longrightarrow> (\<forall>F. spool w = Some F \<longrightarrow>
      (\<exists>new Y. attempts (fst (produce n e c d t w)) = attempts w @ new \<and>
         spool (fst (produce n e c d t w)) = Some (F @ Y) \<and> set Y \<subseteq> insert d (set F) \<and>
         (new = [] \<and> (\<forall>u. snd (produce n e c d t w) \<noteq> Inr u) \<or>
          (\<exists>tp N. new = (tp, d) # N \<and> ordered_by F (map snd N)))))"
  "producer c \<noteq> None \<longrightarrow> (\<forall>F. spool w = Some F \<longrightarrow>
      (\<exists>new Y. attempts (fst (produce_from_local n e c w)) = attempts w @ new \<and>
         spool (fst (produce_from_local n e c w)) = Some (F @ Y) \<and> set Y \<subseteq> set F \<and>
         ordered_by F (map snd new)))"
  "producer c \<noteq> None \<longrightarrow> (\<forall>seen X acc.
      spool w = Some (seen @ ls @ X) \<and> set X \<subseteq> set (seen @ ls) \<and>
      ordered_by (seen @ ls) acc \<and> set seen \<subseteq> set acc \<longrightarrow>
      (\<exists>new X'. attempts (fst (replay_lines n e c ls w)) = attempts w @ new \<and>
         spool (fst (replay_lines n e c ls w)) = Some (seen @ ls @ X') \<and>
         set X' \<subseteq> set (seen @ ls) \<and>
         ordered_by (seen @ ls) (acc @ map snd new)))"
proof (induction n e c d t w and n e c w and n e c ls w
       rule: produce_produce_from_local_replay_lines.induct)
  case (1 e c data data_type w)
  show ?case by simp
next
  case (2 n e c data data_type w)
  show ?case
  proof (intro impI allI)
    fix F
    assume up: "producer c \<noteq> None" and sp: "spool w = Some F"
    from up obtain p where p: "producer c = Some p" by auto
    show "\<exists>new Y. attempts (fst (produce (Suc n) e c data data_type w)) = attempts w @ new \<and>
         spool (fst (produce (Suc n) e c data data_type w)) = Some (F @ Y) \<and>
         set Y \<subseteq> insert data (set F) \<and>
         (new = [] \<and> (\<forall>u. snd (produce (Suc n) e c data data_type w) \<noteq> Inr u) \<or>
          (\<exists>tp N. new = (tp, data) # N \<and> ordered_by F (map snd N)))"
    proof (cases "map_of (producer_types c) data_type")
      case None
      with p sp show ?thesis by simp
    next
      case (Some tp)
      show ?thesis
      proof (cases "send_raises p (attempts w) tp data")
        case True
        have r: "produce (Suc n) e c data data_type w =
                   (fst (write_to_local e data (log_send tp data w)), Inr ())"
          using p Some True by simp
        show ?thesis
        proof (cases "append_raises e (spool w) data")
          case True
          have "attempts (fst (produce (Suc n) e c data data_type w)) = attempts w @ [(tp, data)]"
            "spool (fst (produce (Suc n) e c data data_type w)) = Some (F @ [])"
            using r sp True by (simp_all add: write_to_local_def log_send_def)
          then show ?thesis
            by (intro exI [of _ "[(tp, data)]"] exI [of _ "[]"]) (simp add: ordered_by_Nil)
        next
          case False
          have "attempts (fst (produce (Suc n) e c data data_type w)) = attempts w @ [(tp, data)]"
            "spool (fst (produce (Suc n) e c data data_type w)) = Some (F @ [data])"
            using r sp False by (simp_all add: write_to_local_def log_send_def spool_lines_def)
          then show ?thesis
            by (intro exI [of _ "[(tp, data)]"] exI [of _ "[data]"]) (simp add: ordered_by_Nil)
        qed
      next
        case False
        let ?w1 = "log_send tp data w"
        have sp1: "spool ?w1 = Some F" using sp by (simp add: log_send_def)
        from "2.IH" [OF p Some False] up sp1
        obtain new1 Y where
          a: "attempts (fst (produce_from_local n e c ?w1)) = attempts ?w1 @ new1"
          and s: "spool (fst (produce_from_local n e c ?w1)) = Some (F @ Y)"
          and y: "set Y \<subseteq> set F" and o: "ordered_by F (map snd new1)"
          by blast
        have r: "fst (produce (Suc n) e c data data_type w) = fst (produce_from_local n e c ?w1)"
          by (simp only: produce_up_succ [OF p Some False] fst_conv)
        have "attempts (fst (produce (Suc n) e c data data_type w)) =
                attempts w @ (tp, data) # new1"
          using r a by (simp add: log_send_def)
        moreover have "spool (fst (produce (Suc n) e c data data_type w)) = Some (F @ Y)"
          using r s by simp
        ultimately show ?thesis
          using y o by (intro exI [of _ "(tp, data) # new1"] exI [of _ Y]) auto
      qed
    qed
  qed
next
  case (3 n e c w)
  show ?case
  proof (intro impI allI)
    fix F
    assume up: "producer c \<noteq> None" and sp: "spool w = Some F"
    show "\<exists>new Y. attempts (fst (produce_from_local n e c w)) = attempts w @ new \<and>
         spool (fst (produce_from_local n e c w)) = Some (F @ Y) \<and> set Y \<subseteq> set F \<and>
         ordered_by F (map snd new)"
    proof (cases "read_raises e F")
      case True
      with sp have "produce_from_local n e c w = (w, Inr (Some False))"
        by (simp add: produce_from_local.simps)
      with sp show ?thesis
        by (intro exI [of _ "[]"]) (simp add: ordered_by_Nil)
    next
      case False
      from "3.IH" [OF sp False] up
      have "spool w = Some ([] @ F @ []) \<and> set [] \<subseteq> set ([] @ F) \<and>
              ordered_by ([] @ F) [] \<and> set [] \<subseteq> set [] \<longrightarrow>
            (\<exists>new X'. attempts (fst (replay_lines n e c F w)) = attempts w @ new \<and>
               spool (fst (replay_lines n e c F w)) = Some ([] @ F @ X') \<and>
               set X' \<subseteq> set ([] @ F) \<and> ordered_by ([] @ F) ([] @ map snd new))"
        by blast
      with sp obtain new X' where
        a: "attempts (fst (replay_lines n e c F w)) = attempts w @ new"
        and s: "spool (fst (replay_lines n e c F w)) = Some (F @ X')"
        and x: "set X' \<subseteq> set F" and o: "ordered_by F (map snd new)"
        by (auto simp: ordered_by_Nil)
      obtain w' r where rl: "replay_lines n e c F w = (w', r)"
        by (cases "replay_lines n e c F w")
      show ?thesis
      proof (cases r)
        case (Inl err)
        with no_caught_errors(3) [of n e c F w] rl have "err \<noteq> IOError" by auto
        with Inl rl sp False have "fst (produce_from_local n e c w) = w'"
          by (simp add: produce_from_local.simps)
        with a s x o rl show ?thesis
          by (intro exI [of _ new] exI [of _ X']) simp
      next
        case (Inr u)
        with rl sp False
        have "fst (produce_from_local n e c w) = truncate_at (length F) w'"
          by (simp add: produce_from_local.simps)
        with a s o rl show ?thesis
          by (intro exI [of _ new] exI [of _ "[]"])
             (simp add: attempts_truncate_at spool_truncate_at)
      qed
    qed
  qed
next
  case (4 n e c w)
  show ?case by auto
next
  case (5 n e c line rest w)
  show ?case
  proof (intro impI allI)
    fix seen X acc
    assume up: "producer c \<noteq> None"
      and h: "spool w = Some (seen @ (line # rest) @ X) \<and> set X \<subseteq> set (seen @ line # rest) \<and>
              ordered_by (seen @ line # rest) acc \<and> set seen \<subseteq> set acc"
    let ?L = "seen @ line # rest"
    let ?ch = "channel_of line"
    have P: "producer c \<noteq> None \<longrightarrow> (\<forall>F. spool w = Some F \<longrightarrow>
      (\<exists>new Y. attempts (fst (produce n e c line ?ch w)) = attempts w @ new \<and>
         spool (fst (produce n e c line ?ch w)) = Some (F @ Y) \<and> set Y \<subseteq> insert line (set F) \<and>
         (new = [] \<and> (\<forall>u. snd (produce n e c line ?ch w) \<noteq> Inr u) \<or>
          (\<exists>tp N. new = (tp, line) # N \<and> ordered_by F (map snd N)))))"
      using "5.IH"(1,2) by (cases "has_key ''stackTrace'' line") (simp_all add: channel_of_def)
    from P up h obtain new1 Y where
      a1: "attempts (fst (produce n e c line ?ch w)) = attempts w @ new1"
      and s1: "spool (fst (produce n e c line ?ch w)) = Some ((?L @ X) @ Y)"
      and y1: "set Y \<subseteq> insert line (set (?L @ X))"
      and n1: "new1 = [] \<and> (\<forall>u. snd (produce n e c line ?ch w) \<noteq> Inr u) \<or>
          (\<exists>tp N. new1 = (tp, line) # N \<and> ordered_by (?L @ X) (map snd N))"
      by (metis append.assoc)
    have xy: "set (X @ Y) \<subseteq> set ?L" using h y1 by auto
    have li: "?L ! length seen = line" by simp
    have o1: "ordered_by ?L (acc @ map snd new1)"
    proof (cases "new1 = []")
      case True
      with h show ?thesis by simp
    next
      case False
      with n1 obtain tp N where nn: "new1 = (tp, line) # N"
        and on: "ordered_by (?L @ X) (map snd N)" by blast
      have "ordered_by ?L (map snd N)"
        using ordered_by_shrink [OF _ on] h by blast
      moreover have "ordered_by ?L (acc @ [line])"
        using ordered_by_snoc [of ?L acc "length seen"] h li by simp
      ultimately have "ordered_by ?L ((acc @ [line]) @ map snd N)"
        by (rule ordered_by_append [rotated])
      with nn show ?thesis by simp
    qed
    obtain w1 r1 where pr: "produce n e c line ?ch w = (w1, r1)"
      by (cases "produce n e c line ?ch w")
    show "\<exists>new X'. attempts (fst (replay_lines n e c (line # rest) w)) = attempts w @ new \<and>
         spool (fst (replay_lines n e c (line # rest) w)) = Some (seen @ (line # rest) @ X') \<and>
         set X' \<subseteq> set ?L \<and> ordered_by ?L (acc @ map snd new)"
    proof (cases r1)
      case (Inl err)
      with pr have "fst (replay_lines n e c (line # rest) w) = w1"
        by (simp add: replay_lines_Cons)
      with pr a1 s1 xy o1 show ?thesis
        by (intro exI [of _ new1] exI [of _ "X @ Y"]) simp
    next
      case (Inr u)
      with pr have rr: "replay_lines n e c (line # rest) w = replay_lines n e c rest w1"
        by (simp add: replay_lines_Cons)
      from Inr pr n1 obtain tp N where nn: "new1 = (tp, line) # N" by auto
      have eq: "(w1, r1) = (if has_key ''stackTrace'' line then produce n e c line ''event'' w
                            else produce n e c line ''monitoring'' w)"
        using pr by (auto simp: channel_of_def split: if_splits)
      have hyp: "spool w1 = Some ((seen @ [line]) @ rest @ (X @ Y)) \<and>
                 set (X @ Y) \<subseteq> set ((seen @ [line]) @ rest) \<and>
                 ordered_by ((seen @ [line]) @ rest) (acc @ map snd new1) \<and>
                 set (seen @ [line]) \<subseteq> set (acc @ map snd new1)"
        using s1 pr xy o1 h nn by auto
      from "5.IH"(3) [OF eq Inr] up hyp
      obtain new2 X' where
        a2: "attempts (fst (replay_lines n e c rest w1)) = attempts w1 @ new2"
        and s2: "spool (fst (replay_lines n e c rest w1)) = Some ((seen @ [line]) @ rest @ X')"
        and x2: "set X' \<subseteq> set ((seen @ [line]) @ rest)"
        and o2: "ordered_by ((seen @ [line]) @ rest) ((acc @ map snd new1) @ map snd new2)"
        by blast
      from a1 a2 pr rr have "attempts (fst (replay_lines n e c (line # rest) w)) =
          attempts w @ (new1 @ new2)" by simp
      with rr s2 x2 o2 show ?thesis
        by (intro exI [of _ "new1 @ new2"] exI [of _ X']) simp
    qed
  qed
qed

subsection \<open>The sends of a replay pass are routed by shape\<close>

lemma channel_down_silent:
  "producer c = None \<longrightarrow> attempts (fst (produce n e c d t w)) = attempts w"
  "producer c = None \<longrightarrow> attempts (fst (produce_from_local n e c w)) = attempts w"
  "producer c = None \<longrightarrow> attempts (fst (replay_lines n e c ls w)) = attempts w"
  by (induction n e c d t w and n e c w and n e c ls w
      rule: produce_produce_from_local_replay_lines.induct)
     (auto simp: produce_from_local.simps replay_lines.simps(2) attempts_truncate_at
           split: option.splits prod.splits sum.splits if_splits)

lemma replay_attempts_ordered:
  assumes "spool w = Some F"
    and "attempts (fst (produce_from_local n e c w)) = attempts w @ new"
  shows "ordered_by F (map snd new)"
proof (cases "producer c")
  case None
  with channel_down_silent(2) [of c n e w] assms(2) have "new = []" by simp
  then show ?thesis by (simp add: ordered_by_Nil)
next
  case (Some p)
  with replay_order_invariant(2) [of c w n e] assms(1)
  obtain new' where "attempts (fst (produce_from_local n e c w)) = attempts w @ new'"
    and "ordered_by F (map snd new')" by auto
  with assms(2) show ?thesis by simp
qed

lemma replay_routing_invariant:
  "\<exists>new. attempts (fst (produce n e c d t w)) = attempts w @ new \<and>
      list_all (routed c) (tl new) \<and>
      (new \<noteq> [] \<longrightarrow> map_of (producer_types c) t = Some (fst (hd new)) \<and> snd (hd new) = d) \<and>
      (producer c \<noteq> None \<longrightarrow> (\<forall>u. snd (produce n e c d t w) = Inr u \<longrightarrow> new \<noteq> []))"
  "\<exists>new. attempts (fst (produce_from_local n e c w)) = attempts w @ new \<and>
      list_all (routed c) new \<and>
      (producer c \<noteq> None \<longrightarrow> (\<forall>F. spool w = Some F \<and> \<not> read_raises e F \<longrightarrow>
         (\<forall>u. snd (produce_from_local n e c w) = Inr u \<longrightarrow> set F \<subseteq> snd ` set new)))"
  "\<exists>new. attempts (fst (replay_lines n e c ls w)) = attempts w @ new \<and>
      list_all (routed c) new \<and>
      (producer c \<noteq> None \<longrightarrow>
         (\<forall>u. snd (replay_lines n e c ls w) = Inr u \<longrightarrow> set ls \<subseteq> snd ` set new))"
proof (induction n e c d t w and n e c w and n e c ls w
       rule: produce_produce_from_local_replay_lines.induct)
  case (1 e c data data_type w)
  show ?case by simp
next
  case (2 n e c data data_type w)
  show ?case
  proof (cases "producer c")
    case None
    then show ?thesis by simp
  next
    case (Some p)
    note p = this
    show ?thesis
    proof (cases "map_of (producer_types c) data_type")
      case None
      with p show ?thesis by simp
    next
      case (Some tp)
      show ?thesis
      proof (cases "send_raises p (attempts w) tp data")
        case True
        with p Some have "attempts (fst (produce (Suc n) e c data data_type w)) =
            attempts w @ [(tp, data)]"
          by (simp add: write_to_local_def log_send_def)
        with Some show ?thesis
          by (intro exI [of _ "[(tp, data)]"]) simp
      next
        case False
        from "2.IH" [OF p Some False]
        obtain new1 where
          a: "attempts (fst (produce_from_local n e c (log_send tp data w))) =
                attempts (log_send tp data w) @ new1"
          and r: "list_all (routed c) new1" by blast
        have "fst (produce (Suc n) e c data data_type w) =
                fst (produce_from_local n e c (log_send tp data w))"
          by (simp only: produce_up_succ [OF p Some False] fst_conv)
        with a have "attempts (fst (produce (Suc n) e c data data_type w)) =
            attempts w @ (tp, data) # new1"
          by (simp add: log_send_def)
        with Some r show ?thesis
          by (intro exI [of _ "(tp, data) # new1"]) simp
      qed
    qed
  qed
next
  case (3 n e c w)
  show ?case
  proof (cases "spool w")
    case None
    then show ?thesis by (simp add: produce_from_local.simps)
  next
    case (Some F)
    show ?thesis
    proof (cases "read_raises e F")
      case True
      with Some show ?thesis by (simp add: produce_from_local.simps)
    next
      case False
      from "3.IH" [OF Some False]
      obtain new where
        a: "attempts (fst (replay_lines n e c F w)) = attempts w @ new"
        and r: "list_all (routed c) new"
        and f: "producer c \<noteq> None \<longrightarrow>
                  (\<forall>u. snd (replay_lines n e c F w) = Inr u \<longrightarrow> set F \<subseteq> snd ` set new)"
        by blast
      obtain w' r' where rl: "replay_lines n e c F w = (w', r')"
        by (cases "replay_lines n e c F w")
      show ?thesis
      proof (cases r')
        case (Inl err)
        with no_caught_errors(3) [of n e c F w] rl have "err \<noteq> IOError" by auto
        with Inl rl Some False have "produce_from_local n e c w = (w', Inl err)"
          by (simp add: produce_from_local.simps)
        with a r rl show ?thesis
          by (intro exI [of _ new]) simp
      next
        case (Inr u)
        with rl Some False
        have "produce_from_local n e c w = (truncate_at (length F) w', Inr None)"
          by (simp add: produce_from_local.simps)
        with a r f rl Inr Some show ?thesis
          by (intro exI [of _ new]) (simp add: attempts_truncate_at)
      qed
    qed
  qed
next
  case (4 n e c w)
  show ?case by simp
next
  case (5 n e c line rest w)
  let ?ch = "channel_of line"
  have "\<exists>new. attempts (fst (produce n e c line ?ch w)) = attempts w @ new \<and>
      list_all (routed c) (tl new) \<and>
      (new \<noteq> [] \<longrightarrow> map_of (producer_types c) ?ch = Some (fst (hd new)) \<and> snd (hd new) = line) \<and>
      (producer c \<noteq> None \<longrightarrow> (\<forall>u. snd (produce n e c line ?ch w) = Inr u \<longrightarrow> new \<noteq> []))"
    using "5.IH"(1,2) by (cases "has_key ''stackTrace'' line") (simp_all add: channel_of_def)
  then obtain new1 where
    a1: "attempts (fst (produce n e c line ?ch w)) = attempts w @ new1"
    and t1: "list_all (routed c) (tl new1)"
    and h1: "new1 \<noteq> [] \<longrightarrow> map_of (producer_types c) ?ch = Some (fst (hd new1)) \<and>
               snd (hd new1) = line"
    and e1: "producer c \<noteq> None \<longrightarrow>
               (\<forall>u. snd (produce n e c line ?ch w) = Inr u \<longrightarrow> new1 \<noteq> [])"
    by blast
  have r1: "list_all (routed c) new1"
  proof (cases new1)
    case Nil
    then show ?thesis by simp
  next
    case (Cons a N)
    with h1 t1 show ?thesis by (simp add: routed_def)
  qed
  obtain w1 res where pr: "produce n e c line ?ch w = (w1, res)"
    by (cases "produce n e c line ?ch w")
  show ?case
  proof (cases res)
    case (Inl err)
    with pr have "replay_lines n e c (line # rest) w = (w1, Inl err)"
      by (simp add: replay_lines_Cons)
    with a1 r1 pr show ?thesis
      by (intro exI [of _ new1]) simp
  next
    case (Inr u)
    with pr have rr: "replay_lines n e c (line # rest) w = replay_lines n e c rest w1"
      by (simp add: replay_lines_Cons)
    have eq: "(w1, res) = (if has_key ''stackTrace'' line then produce n e c line ''event'' w
                           else produce n e c line ''monitoring'' w)"
      using pr by (auto simp: channel_of_def split: if_splits)
    from "5.IH"(3) [OF eq Inr]
    obtain new2 where
      a2: "attempts (fst (replay_lines n e c rest w1)) = attempts w1 @ new2"
      and r2: "list_all (routed c) new2"
      and f2: "producer c \<noteq> None \<longrightarrow>
                 (\<forall>u. snd (replay_lines n e c rest w1) = Inr u \<longrightarrow> set rest \<subseteq> snd ` set new2)"
      by blast
    have l: "producer c \<noteq> None \<longrightarrow> line \<in> snd ` set new1"
    proof
      assume "producer c \<noteq> None"
      with e1 pr Inr have "new1 \<noteq> []" by simp
      with h1 have "snd (hd new1) = line" "hd new1 \<in> set new1" by simp_all
      then show "line \<in> snd ` set new1" by force
    qed
    have "attempts (fst (replay_lines n e c (line # rest) w)) = attempts w @ (new1 @ new2)"
      using a1 a2 pr rr by simp
    with r1 r2 f2 l rr show ?thesis
      by (intro exI [of _ "new1 @ new2"]) auto
  qed
qed

subsection \<open>Routing and order of the replay\<close>

text \<open>
  Claim C5. Every send that a replay pass makes carries a record read from the spool
  and goes to the topic of the channel that matches the record's shape: the topic bound
  to \<open>"event"\<close> when the record has the key \<open>stackTrace\<close>, the topic bound to
  \<open>"monitoring"\<close> otherwise. In a pass that reads the spool and returns, every line of
  the spool is sent in this way.
\<close>
theorem replay_routes_by_shape:
  assumes "attempts (fst (produce_from_local n e c w)) = attempts w @ new"
  shows "(\<forall>(tp, d) \<in> set new.
            map_of (producer_types c)
              (if has_key ''stackTrace'' d then ''event'' else ''monitoring'') = Some tp \<and>
            d \<in> set (spool_lines w)) \<and>
         (producer c \<noteq> None \<and> spool w = Some ls \<and> \<not> read_raises e ls \<and>
          snd (produce_from_local n e c w) = Inr r \<longrightarrow> set ls \<subseteq> snd ` set new)"
proof -
  from replay_routing_invariant(2) [of n e c w] assms
  have r: "list_all (routed c) new"
    and f: "producer c \<noteq> None \<longrightarrow> (\<forall>F. spool w = Some F \<and> \<not> read_raises e F \<longrightarrow>
         (\<forall>u. snd (produce_from_local n e c w) = Inr u \<longrightarrow> set F \<subseteq> snd ` set new))"
    by auto
  have from_spool: "snd ` set new \<subseteq> set (spool_lines w)"
  proof (cases "spool w")
    case None
    then have "produce_from_local n e c w = (w, Inr (Some False))"
      by (simp add: produce_from_local.simps)
    with assms show ?thesis by simp
  next
    case (Some F)
    from ordered_by_set [OF replay_attempts_ordered [OF Some assms]]
    obtain k where "set (map snd new) = set (take k F)"
      unfolding chainset_def by blast
    then have "snd ` set new \<subseteq> set F"
      using set_take_subset [of k F] by auto
    with Some show ?thesis by (simp add: spool_lines_def)
  qed
  have "map_of (producer_types c)
          (if has_key ''stackTrace'' d then ''event'' else ''monitoring'') = Some tp \<and>
        d \<in> set (spool_lines w)" if "(tp, d) \<in> set new" for tp d
  proof -
    from r that have "routed c (tp, d)" by (simp add: list_all_iff)
    moreover from that from_spool have "d \<in> set (spool_lines w)" by force
    ultimately show ?thesis by (simp add: routed_def channel_of_def)
  qed
  with f show ?thesis by blast
qed

theorem replay_routes_by_shape_witness:
  "attempts (fst (produce_from_local (Suc 0) disk_ok (client_with (Some broker_down))
       \<lparr>spool = Some [metric_a, event_b], attempts = []\<rparr>)) =
     attempts \<lparr>spool = Some [metric_a, event_b], attempts = []\<rparr> @
       [(JStr ''prof'', metric_a), (JStr ''events'', event_b)] \<and>
   (JStr ''events'', event_b) \<in> set [(JStr ''prof'', metric_a), (JStr ''events'', event_b)] \<and>
   has_key ''stackTrace'' event_b \<and>
   map_of (producer_types (client_with (Some broker_down))) ''event'' = Some (JStr ''events'') \<and>
   (JStr ''prof'', metric_a) \<in> set [(JStr ''prof'', metric_a), (JStr ''events'', event_b)] \<and>
   \<not> has_key ''stackTrace'' metric_a \<and>
   map_of (producer_types (client_with (Some broker_down))) ''monitoring'' = Some (JStr ''prof'') \<and>
   producer (client_with (Some broker_down)) \<noteq> None \<and>
   \<not> read_raises disk_ok [metric_a, event_b] \<and>
   snd (produce_from_local (Suc 0) disk_ok (client_with (Some broker_down))
       \<lparr>spool = Some [metric_a, event_b], attempts = []\<rparr>) = Inr None \<and>
   set [metric_a, event_b] \<subseteq> snd ` set [(JStr ''prof'', metric_a), (JStr ''events'', event_b)]"
proof -
  let ?w = "\<lparr>spool = Some [metric_a, event_b], attempts = []\<rparr>"
  let ?c = "client_with (Some broker_down)"
  have run: "produce_from_local (Suc 0) disk_ok ?c ?w =
      (\<lparr>spool = Some [metric_a, event_b],
        attempts = [(JStr ''prof'', metric_a), (JStr ''events'', event_b)]\<rparr>, Inr None)"
    by (simp add: example_defs step_defs)
  have h: "attempts (fst (produce_from_local (Suc 0) disk_ok ?c ?w)) =
      attempts ?w @ [(JStr ''prof'', metric_a), (JStr ''events'', event_b)]"
    using run by simp
  have k: "has_key ''stackTrace'' event_b" "\<not> has_key ''stackTrace'' metric_a"
    by (simp_all add: has_key_def event_b_def metric_a_def)
  have u: "producer ?c \<noteq> None" "\<not> read_raises disk_ok [metric_a, event_b]"
    by (simp_all add: client_with_def new_client_def disk_ok_def)
  have s: "spool ?w = Some [metric_a, event_b]" by simp
  note t = replay_routes_by_shape [OF h, where ls = "[metric_a, event_b]" and r = None]
  from t have "map_of (producer_types ?c)
                 (if has_key ''stackTrace'' event_b then ''event'' else ''monitoring'') =
               Some (JStr ''events'')"
    by auto
  moreover from t have "map_of (producer_types ?c)
                 (if has_key ''stackTrace'' metric_a then ''event'' else ''monitoring'') =
               Some (JStr ''prof'')"
    by auto
  moreover from t u s run
  have "set [metric_a, event_b] \<subseteq> snd ` set [(JStr ''prof'', metric_a), (JStr ''events'', event_b)]"
    by simp
  ultimately show ?thesis
    using h k u run by simp
qed




section \<open>Properties of the bootstrap\<close>

lemmas host_defs = host_ok_def host_config_down_def host_certs_down_def host_broker_down_def
  host_no_version_def empty_disk_def example_config_def example_archive_def

lemmas boot_defs = init_def get_kafka_brokers_def subscript_def build_url_def auth_header_def
  create_file_def path_exists_def dirname_def dir_chain_def offline_fliename_def
  get_commit_hash_def get_abs_path_def abspath_def get_kafka_certs_def fetch_certs_def
  zip_read_def pem_path_def new_client_def

subsection \<open>The certificate files\<close>








subsection \<open>Which failures leave the constructor\<close>

lemma init_config_raises:
  assumes "config_response env (build_url base ''private/devices/config/'') (auth_header key) = Inl err"
  shows "init env key app base mac d = (d, Inl err)"
  using assms by (simp add: init_def get_kafka_brokers_def)

lemma init_after_version:
  assumes "get_kafka_brokers env base key = Inr (bs, pt)"
    and "snd (create_file env offline_fliename d) = Inr ok"
    and "version_file env = Some content"
  shows "init env key app base mac d =
     (case get_kafka_certs env base key (fst (create_file env offline_fliename d)) of
        (d2, Inl err) \<Rightarrow> (d2, Inl err)
      | (d2, Inr certs) \<Rightarrow>
          if certs then
            (case kafka_connect env bs of
               Inl err \<Rightarrow>
                 if err = KafkaError
                 then (d2, Inr (new_client key app base mac bs pt content
                                  (get_abs_path env ''.auklet/version'') None))
                 else (d2, Inl err)
             | Inr p \<Rightarrow> (d2, Inr (new_client key app base mac bs pt content
                                  (get_abs_path env ''.auklet/version'') (Some p))))
          else (d2, Inr (new_client key app base mac bs pt content
                           (get_abs_path env ''.auklet/version'') None)))"
proof -
  obtain d1 where "create_file env offline_fliename d = (d1, Inr ok)"
    using assms(2) by (cases "create_file env offline_fliename d") auto
  with assms(1,3) show ?thesis
    by (simp add: init_def get_commit_hash_def)
qed

lemma init_certs_raises:
  assumes "get_kafka_brokers env base key = Inr (bs, pt)"
    and "snd (create_file env offline_fliename d) = Inr ok"
    and "version_file env = Some content"
    and "fetch_certs env base key = Inl err"
  shows "snd (init env key app base mac d) = Inl err"
  using assms(4)
  by (simp add: init_after_version [OF assms(1-3)] get_kafka_certs_def)

text \<open>
  Claim C4, amended. Of the bootstrap failures the constructor catches only the failure
  of the broker channel construction. If \<open>KafkaProducer(...)\<close> raises \<open>KafkaError\<close>
  after the config fetch, the version file and the certificate fetch succeeded, the
  constructor returns a client whose \<open>producer\<close> is \<open>None\<close>, and every later
  \<open>produce\<close> on that client is a no-op: delivery stays disabled. If the config fetch
  raises, the exception leaves the constructor.
\<close>

theorem init_swallows_only_broker_error:
  "(get_kafka_brokers env base key = Inr (bs, pt) \<and>
    snd (create_file env offline_fliename d) = Inr ok \<and>
    version_file env = Some content \<and>
    snd (get_kafka_certs env base key (fst (create_file env offline_fliename d))) = Inr ok' \<and>
    kafka_connect env bs = Inl KafkaError \<longrightarrow>
      (\<exists>cl. snd (init env key app base mac d) = Inr cl \<and> producer cl = None \<and>
            (\<forall>n e data data_type w. produce (Suc n) e cl data data_type w = (w, Inr ())))) \<and>
   (config_response env (build_url base ''private/devices/config/'') (auth_header key) = Inl err \<longrightarrow>
      snd (init env key app base mac d) = Inl err)"
proof (intro conjI impI)
  assume a: "get_kafka_brokers env base key = Inr (bs, pt) \<and>
    snd (create_file env offline_fliename d) = Inr ok \<and>
    version_file env = Some content \<and>
    snd (get_kafka_certs env base key (fst (create_file env offline_fliename d))) = Inr ok' \<and>
    kafka_connect env bs = Inl KafkaError"
  let ?cl = "new_client key app base mac bs pt content (get_abs_path env ''.auklet/version'') None"
  from a obtain d2 where
    "get_kafka_certs env base key (fst (create_file env offline_fliename d)) = (d2, Inr ok')"
    by (cases "get_kafka_certs env base key (fst (create_file env offline_fliename d))") auto
  with a have "snd (init env key app base mac d) = Inr ?cl"
    by (simp add: init_after_version [of env base key bs pt d ok content])
  moreover have "producer ?cl = None"
    by (simp add: new_client_def)
  ultimately show "\<exists>cl. snd (init env key app base mac d) = Inr cl \<and> producer cl = None \<and>
            (\<forall>n e data data_type w. produce (Suc n) e cl data data_type w = (w, Inr ()))"
    by (intro exI [of _ ?cl]) simp
next
  assume "config_response env (build_url base ''private/devices/config/'') (auth_header key) = Inl err"
  then show "snd (init env key app base mac d) = Inl err"
    by (simp add: init_config_raises)
qed

theorem init_swallows_only_broker_error_witness:
  "get_kafka_brokers host_broker_down ''https://api.auklet.io/'' ''key'' =
     Inr (JList [JStr ''broker:9093''], example_topics) \<and>
   snd (create_file host_broker_down offline_fliename empty_disk) = Inr True \<and>
   version_file host_broker_down = Some ''c0ffee'' \<and>
   snd (get_kafka_certs host_broker_down ''https://api.auklet.io/'' ''key''
          (fst (create_file host_broker_down offline_fliename empty_disk))) = Inr True \<and>
   kafka_connect host_broker_down (JList [JStr ''broker:9093'']) = Inl KafkaError \<and>
   (\<exists>cl. snd (init host_broker_down ''key'' ''app'' ''https://api.auklet.io/'' None empty_disk)
           = Inr cl \<and> producer cl = None) \<and>
   config_response host_config_down
       (build_url ''https://api.auklet.io/'' ''private/devices/config/'') (auth_header ''key'')
     = Inl URLError \<and>
   snd (init host_config_down ''key'' ''app'' ''https://api.auklet.io/'' None empty_disk)
     = Inl URLError"
proof -
  have b1: "get_kafka_brokers host_broker_down ''https://api.auklet.io/'' ''key'' =
     Inr (JList [JStr ''broker:9093''], example_topics)"
    by code_simp
  have b2: "snd (create_file host_broker_down offline_fliename empty_disk) = Inr True"
    by code_simp
  have b3: "version_file host_broker_down = Some ''c0ffee''"
    by (simp add: host_broker_down_def host_ok_def)
  have b4: "snd (get_kafka_certs host_broker_down ''https://api.auklet.io/'' ''key''
          (fst (create_file host_broker_down offline_fliename empty_disk))) = Inr True"
    by code_simp
  have b5: "kafka_connect host_broker_down (JList [JStr ''broker:9093'']) = Inl KafkaError"
    by (simp add: host_broker_down_def host_ok_def)
  have c1: "config_response host_config_down
       (build_url ''https://api.auklet.io/'' ''private/devices/config/'') (auth_header ''key'')
     = Inl URLError"
    by (simp add: host_config_down_def host_ok_def)
  have r1: "\<exists>cl. snd (init host_broker_down ''key'' ''app'' ''https://api.auklet.io/'' None
                      empty_disk) = Inr cl \<and> producer cl = None"
    using b1 b2 b3 b4 b5
      init_swallows_only_broker_error [where env = host_broker_down
        and base = "''https://api.auklet.io/''" and key = "''key''" and app = "''app''"
        and mac = None and d = empty_disk and bs = "JList [JStr ''broker:9093'']"
        and pt = example_topics and ok = True and ok' = True and content = "''c0ffee''"
        and err = URLError]
    by blast
  have r2: "snd (init host_config_down ''key'' ''app'' ''https://api.auklet.io/'' None empty_disk)
     = Inl URLError"
    using c1
      init_swallows_only_broker_error [where env = host_config_down
        and base = "''https://api.auklet.io/''" and key = "''key''" and app = "''app''"
        and mac = None and d = empty_disk and bs = "JList [JStr ''broker:9093'']"
        and pt = example_topics and ok = True and ok' = True and content = "''c0ffee''"
        and err = URLError]
    by blast
  show ?thesis
    using b1 b2 b3 b4 b5 c1 r1 r2 by blast
qed

text \<open>The same holds for the certificate fetch: an exception of \<open>urlopen\<close> other than
  the first \<open>HTTPError\<close>, or a body that is no zip archive, leaves the constructor.\<close>

lemma init_certs_down_example:
  "snd (init host_certs_down ''key'' ''app'' ''https://api.auklet.io/'' None empty_disk)
     = Inl URLError"
proof -
  have d1: "get_kafka_brokers host_certs_down ''https://api.auklet.io/'' ''key'' =
     Inr (JList [JStr ''broker:9093''], example_topics)"
    by code_simp
  have d2: "snd (create_file host_certs_down offline_fliename empty_disk) = Inr True"
    by code_simp
  have d3: "version_file host_certs_down = Some ''c0ffee''"
    by (simp add: host_certs_down_def host_ok_def)
  have d4: "fetch_certs host_certs_down ''https://api.auklet.io/'' ''key'' = Inl URLError"
    by code_simp
  show ?thesis
    using init_certs_raises [OF d1 d2 d3 d4] .
qed

text \<open>
  Claim C4 as stated, that construction completes without raising for every bootstrap
  failure, fails when the config endpoint cannot be reached: \<open>urlopen\<close> raises
  \<open>URLError\<close> in \<open>_get_kafka_brokers\<close>, nothing catches it, and \<open>Client(...)\<close>
  raises \<open>URLError\<close>.
\<close>

theorem init_raises_on_config_failure:
  "config_response host_config_down ''https://api.auklet.io/private/devices/config/'' ''JWT key''
     = Inl URLError \<and>
   snd (init host_config_down ''key'' ''app'' ''https://api.auklet.io/'' None empty_disk)
     = Inl URLError"
  by (simp add: init_def get_kafka_brokers_def build_url_def auth_header_def
        host_config_down_def host_ok_def)

text \<open>
  Claim C10. If \<open>.auklet/version\<close> cannot be opened, \<open>get_commit_hash\<close> returns the
  empty string and not a pair, unpacking it into two names raises \<open>ValueError\<close>, and
  the constructor always ends in an exception: \<open>ValueError\<close> when the config fetch and
  the creation of the spool directory succeeded, the exception of the earlier step
  otherwise.
\<close>

theorem init_raises_without_version_file:
  assumes "version_file env = None"
  shows "get_commit_hash env = PStr [] \<and>
         unpack2 (get_commit_hash env) = Inl ValueError \<and>
         (\<exists>err. snd (init env key app base mac d) = Inl err) \<and>
         (get_kafka_brokers env base key = Inr (bs, pt) \<and>
          snd (create_file env offline_fliename d) = Inr ok \<longrightarrow>
            snd (init env key app base mac d) = Inl ValueError)"
proof -
  have g: "get_commit_hash env = PStr []"
    using assms by (simp add: get_commit_hash_def)
  then have u: "unpack2 (get_commit_hash env) = Inl ValueError"
    by simp
  have r: "\<exists>err. snd (init env key app base mac d) = Inl err"
    using u by (auto simp: init_def split: sum.splits prod.splits)
  have v: "snd (init env key app base mac d) = Inl ValueError"
    if "get_kafka_brokers env base key = Inr (bs, pt)"
      and "snd (create_file env offline_fliename d) = Inr ok"
    using that u by (auto simp: init_def split: sum.splits prod.splits)
  from g u r v show ?thesis by blast
qed

theorem init_raises_without_version_file_witness:
  "version_file host_no_version = None \<and>
   get_commit_hash host_no_version = PStr [] \<and>
   get_kafka_brokers host_no_version ''https://api.auklet.io/'' ''key'' =
     Inr (JList [JStr ''broker:9093''], example_topics) \<and>
   snd (create_file host_no_version offline_fliename empty_disk) = Inr True \<and>
   snd (init host_no_version ''key'' ''app'' ''https://api.auklet.io/'' None empty_disk) =
     Inl ValueError"
proof -
  have h: "version_file host_no_version = None"
    by (simp add: host_no_version_def)
  have b: "get_kafka_brokers host_no_version ''https://api.auklet.io/'' ''key'' =
     Inr (JList [JStr ''broker:9093''], example_topics)"
    by code_simp
  have c: "snd (create_file host_no_version offline_fliename empty_disk) = Inr True"
    by code_simp
  show ?thesis
    using h b c
      init_raises_without_version_file [OF h, where base = "''https://api.auklet.io/''"
        and key = "''key''" and app = "''app''" and mac = None and d = empty_disk
        and bs = "JList [JStr ''broker:9093'']" and pt = example_topics and ok = True]
    by simp
qed

end
